theory Spec2Isabelle
  imports Main
begin

section \<open>The configuration header \<^verbatim>\<open>third_party/codec2/include/config.h\<close>\<close>

text \<open>
  The header consists of preprocessor directives only: an include guard
  (\<^verbatim>\<open>#ifndef\<close> / \<^verbatim>\<open>#define\<close> / \<^verbatim>\<open>#endif\<close>) around fourteen object-like macro
  definitions. A directive is modelled as a value; the replacement list of a macro is either
  empty (\<open>None\<close>, as for the guard macro) or a single integer constant (\<open>Some v\<close>).
\<close>

datatype directive =
    Ifndef string
  | Define string "int option"
  | Endif

definition guard_name :: string where
  "guard_name = ''_CONFIGURATION_HEADER_GUARD_H_''"

definition config_h :: "directive list" where
  "config_h =
    [ Ifndef ''_CONFIGURATION_HEADER_GUARD_H_'',
      Define ''_CONFIGURATION_HEADER_GUARD_H_'' None,
      Define ''SIZEOF_INT'' (Some 4),
      Define ''HAVE_STDLIB_H'' (Some 1),
      Define ''HAVE_STRING_H'' (Some 1),
      Define ''HAVE_FLOOR'' (Some 1),
      Define ''HAVE_CEIL'' (Some 1),
      Define ''HAVE_MEMSET'' (Some 1),
      Define ''HAVE_POW'' (Some 1),
      Define ''HAVE_SQRT'' (Some 1),
      Define ''HAVE_SIN'' (Some 1),
      Define ''HAVE_COS'' (Some 1),
      Define ''HAVE_ATAN2'' (Some 1),
      Define ''HAVE_LOG10'' (Some 1),
      Define ''HAVE_ROUND'' (Some 1),
      Define ''HAVE_GETOPT'' (Some 0),
      Endif ]"

subsection \<open>Preprocessing\<close>

text \<open>
  The macro table maps a defined name to its replacement list. The preprocessor walks the
  directives with a stack of open conditionals; the head of the stack tells whether the
  current group is processed or skipped. \<^verbatim>\<open>#define\<close> of a name that is already defined
  with a different replacement list is a constraint violation (C11 6.10.3p2); defining it
  again with the same replacement list is allowed. The header contains no \<^verbatim>\<open>#undef\<close>.
\<close>

type_synonym macros = "string \<rightharpoonup> int option"

datatype pp_error =
    Redefinition string
  | EndifWithoutIf
  | UnterminatedConditional

definition active :: "bool list \<Rightarrow> bool" where
  "active stk = (case stk of [] \<Rightarrow> True | b # _ \<Rightarrow> b)"

fun preprocess :: "directive list \<Rightarrow> bool list \<Rightarrow> macros \<Rightarrow> pp_error + macros" where
  "preprocess [] stk m = (if stk = [] then Inr m else Inl UnterminatedConditional)"
| "preprocess (Ifndef n # ds) stk m =
     preprocess ds ((active stk \<and> m n = None) # stk) m"
| "preprocess (Define n r # ds) stk m =
     (if active stk then
        (case m n of
           None \<Rightarrow> preprocess ds stk (m(n \<mapsto> r))
         | Some r' \<Rightarrow> if r' = r then preprocess ds stk m else Inl (Redefinition n))
      else preprocess ds stk m)"
| "preprocess (Endif # ds) stk m =
     (case stk of [] \<Rightarrow> Inl EndifWithoutIf | _ # stk' \<Rightarrow> preprocess ds stk' m)"

text \<open>\<^verbatim>\<open>#include "config.h"\<close> processes the header at top level.\<close>

definition include_config :: "macros \<Rightarrow> pp_error + macros" where
  "include_config m = preprocess config_h [] m"

text \<open>A translation unit that includes the header \<open>k\<close> times in a row.\<close>

fun include_times :: "nat \<Rightarrow> macros \<Rightarrow> pp_error + macros" where
  "include_times 0 m = Inr m"
| "include_times (Suc k) m =
     (case include_config m of Inl e \<Rightarrow> Inl e | Inr m' \<Rightarrow> include_times k m')"

text \<open>
  Between two inclusions a translation unit may change the macro table. The change of one
  setting, \<^verbatim>\<open>#undef n\<close> followed by \<^verbatim>\<open>#define n v\<close>, is \<open>redefine n v\<close>. A translation
  unit that includes the header, applies a change, includes the header again, and so on,
  ending with an inclusion, is \<open>includes_between\<close>: one table change per gap.
\<close>

definition redefine :: "string \<Rightarrow> int \<Rightarrow> macros \<Rightarrow> macros" where
  "redefine n v m = m(n \<mapsto> Some v)"

fun includes_between :: "(macros \<Rightarrow> macros) list \<Rightarrow> macros \<Rightarrow> pp_error + macros" where
  "includes_between [] m = include_config m"
| "includes_between (f # fs) m =
     (case include_config m of Inl e \<Rightarrow> Inl e | Inr m' \<Rightarrow> includes_between fs (f m'))"

text \<open>The macro table a translation unit sees after including the header once.\<close>

definition config_macros :: macros where
  "config_macros =
     [ ''_CONFIGURATION_HEADER_GUARD_H_'' \<mapsto> None,
       ''SIZEOF_INT'' \<mapsto> Some 4,
       ''HAVE_STDLIB_H'' \<mapsto> Some 1,
       ''HAVE_STRING_H'' \<mapsto> Some 1,
       ''HAVE_FLOOR'' \<mapsto> Some 1,
       ''HAVE_CEIL'' \<mapsto> Some 1,
       ''HAVE_MEMSET'' \<mapsto> Some 1,
       ''HAVE_POW'' \<mapsto> Some 1,
       ''HAVE_SQRT'' \<mapsto> Some 1,
       ''HAVE_SIN'' \<mapsto> Some 1,
       ''HAVE_COS'' \<mapsto> Some 1,
       ''HAVE_ATAN2'' \<mapsto> Some 1,
       ''HAVE_LOG10'' \<mapsto> Some 1,
       ''HAVE_ROUND'' \<mapsto> Some 1,
       ''HAVE_GETOPT'' \<mapsto> Some 0 ]"

text \<open>
  The value a name expands to: the integer constant of its replacement list. A name that
  is not defined, or defined with an empty replacement list, has no value.
\<close>

definition macro_value :: "macros \<Rightarrow> string \<Rightarrow> int option" where
  "macro_value m n = (case m n of Some (Some v) \<Rightarrow> Some v | _ \<Rightarrow> None)"

text \<open>The names of the header's settings, in the order the header defines them.\<close>

definition flag_names :: "string list" where
  "flag_names =
    [ ''HAVE_STDLIB_H'', ''HAVE_STRING_H'', ''HAVE_FLOOR'', ''HAVE_CEIL'', ''HAVE_MEMSET'',
      ''HAVE_POW'', ''HAVE_SQRT'', ''HAVE_SIN'', ''HAVE_COS'', ''HAVE_ATAN2'', ''HAVE_LOG10'',
      ''HAVE_ROUND'', ''HAVE_GETOPT'' ]"

definition recognized_names :: "string list" where
  "recognized_names = ''SIZEOF_INT'' # flag_names"

section \<open>The capability descriptor\<close>

text \<open>
  The header itself contains no code that reads the settings: consumers test the macros in
  conditional-inclusion directives of their own. The descriptor, its constructor, its
  queries and the resolver are therefore modelled from the specification's contract.
\<close>

datatype error = ConfigurationError

text \<open>
  Modelled from the spec: the CapabilityDescriptor aggregate (section 3), absent from
  \<^verbatim>\<open>config.h\<close>: the integer width plus one boolean per flag name.
\<close>

record descriptor =
  intWidth :: int
  flags :: "(string \<times> bool) list"

text \<open>
  Modelled from the spec: the widths the resolver supports (section 4.1, clause (b):
  "e.g. 2, 4, 8"); no such list exists in \<^verbatim>\<open>config.h\<close>.
\<close>

definition supportedWidths :: "int list" where
  "supportedWidths = [2, 4, 8]"

text \<open>
  Modelled from the spec: reading the boolean flags during construction (section 4.1,
  clause (a)), absent from \<^verbatim>\<open>config.h\<close>. Every flag must have an explicit value;
  there is no default. A value is read as a boolean the way the preprocessor tests it:
  non-zero is true.
\<close>

fun read_flags :: "macros \<Rightarrow> string list \<Rightarrow> error + (string \<times> bool) list" where
  "read_flags m [] = Inr []"
| "read_flags m (n # ns) =
     (case macro_value m n of
        None \<Rightarrow> Inl ConfigurationError
      | Some v \<Rightarrow>
          (case read_flags m ns of
             Inl e \<Rightarrow> Inl e
           | Inr fs \<Rightarrow> Inr ((n, v \<noteq> 0) # fs)))"

text \<open>
  Modelled from the spec: the check for unknown flags (section 3: "an unrecognized flag name
  is a configuration error, not silently ignored"; section 7: "missing/unknown flag ...
  detected at construction"), absent from \<^verbatim>\<open>config.h\<close>. A configuration has an unknown
  flag if it gives a value to a name outside the recognized set. The include guard has an
  empty replacement list, so it is not a setting.
\<close>

definition unknown_flag :: "macros \<Rightarrow> bool" where
  "unknown_flag m = (\<exists>n. macro_value m n \<noteq> None \<and> n \<notin> set recognized_names)"

text \<open>
  Modelled from the spec: descriptor construction (sections 4.1 and 7), absent from
  \<^verbatim>\<open>config.h\<close>. Construction fails with \<open>ConfigurationError\<close> if the configuration
  holds an unknown flag, if (a) a required flag is absent from it, or if (b) the integer
  width is not a supported value. The spec names the supported widths only by example, so
  the constructor takes them as the parameter \<open>ws\<close>.
\<close>

definition construct_with :: "int list \<Rightarrow> macros \<Rightarrow> error + descriptor" where
  "construct_with ws m =
     (if unknown_flag m then Inl ConfigurationError
      else
        (case macro_value m ''SIZEOF_INT'' of
           None \<Rightarrow> Inl ConfigurationError
         | Some w \<Rightarrow>
             if w \<notin> set ws then Inl ConfigurationError
             else
               (case read_flags m flag_names of
                  Inl e \<Rightarrow> Inl e
                | Inr fs \<Rightarrow> Inr \<lparr> intWidth = w, flags = fs \<rparr>)))"

text \<open>
  Modelled from the spec: construction with the widths the spec gives as supported
  (section 4.1: "e.g. 2, 4, 8").
\<close>

definition construct :: "macros \<Rightarrow> error + descriptor" where
  "construct m = construct_with supportedWidths m"

text \<open>
  Modelled from the spec: the lookup \<open>isAvailable\<close> (sections 4.1 and 6), absent from
  \<^verbatim>\<open>config.h\<close>. The table is queried by name; a name that is not one of the
  descriptor's flags is a \<open>ConfigurationError\<close>.
\<close>

definition isAvailable :: "descriptor \<Rightarrow> string \<Rightarrow> error + bool" where
  "isAvailable d n =
     (case map_of (flags d) n of
        None \<Rightarrow> Inl ConfigurationError
      | Some b \<Rightarrow> Inr b)"

text \<open>
  Modelled from the spec: the Primitive Resolver's choice (section 4.2), absent from
  \<^verbatim>\<open>config.h\<close>: the native primitive for a flag marked available, the portable
  fallback otherwise.
\<close>

datatype implementation = Native | Fallback

definition resolve :: "descriptor \<Rightarrow> string \<Rightarrow> error + implementation" where
  "resolve d n =
     (case isAvailable d n of
        Inl e \<Rightarrow> Inl e
      | Inr b \<Rightarrow> Inr (if b then Native else Fallback))"

text \<open>
  Modelled from the spec: the operations a consumer may perform on a constructed
  descriptor (section 4.1: \<open>isAvailable\<close> and \<open>intWidth\<close>, "no side effects beyond
  construction-time validation"), absent from \<^verbatim>\<open>config.h\<close>. Each operation is a
  step that takes the descriptor and returns its answer together with the descriptor
  afterwards.
\<close>

datatype query = IsAvailable string | IntWidth

datatype answer = Available bool | Width int

fun exec :: "query \<Rightarrow> descriptor \<Rightarrow> (error + answer) \<times> descriptor" where
  "exec (IsAvailable n) d =
     ((case isAvailable d n of Inl e \<Rightarrow> Inl e | Inr b \<Rightarrow> Inr (Available b)), d)"
| "exec IntWidth d = (Inr (Width (intWidth d)), d)"

fun run :: "query list \<Rightarrow> descriptor \<Rightarrow> (error + answer) list \<times> descriptor" where
  "run [] d = ([], d)"
| "run (q # qs) d =
     (case exec q d of
        (a, d') \<Rightarrow> (case run qs d' of (as, d'') \<Rightarrow> (a # as, d'')))"

text \<open>The descriptor constructed from the header as shipped.\<close>

definition shipped_descriptor :: descriptor where
  "shipped_descriptor =
     \<lparr> intWidth = 4,
       flags =
         [ (''HAVE_STDLIB_H'', True), (''HAVE_STRING_H'', True), (''HAVE_FLOOR'', True),
           (''HAVE_CEIL'', True), (''HAVE_MEMSET'', True), (''HAVE_POW'', True),
           (''HAVE_SQRT'', True), (''HAVE_SIN'', True), (''HAVE_COS'', True),
           (''HAVE_ATAN2'', True), (''HAVE_LOG10'', True), (''HAVE_ROUND'', True),
           (''HAVE_GETOPT'', False) ] \<rparr>"

text \<open>
  Modelled from the spec: the answer a query has by the configuration the descriptor was
  constructed from (section 3: "immutable thereafter"); a reference for the operations
  above, absent from \<^verbatim>\<open>config.h\<close>.
\<close>

fun configured_answer :: "macros \<Rightarrow> query \<Rightarrow> error + answer" where
  "configured_answer m (IsAvailable n) =
     (if n \<in> set flag_names then
        (case macro_value m n of
           None \<Rightarrow> Inl ConfigurationError
         | Some v \<Rightarrow> Inr (Available (v \<noteq> 0)))
      else Inl ConfigurationError)"
| "configured_answer m IntWidth =
     (case macro_value m ''SIZEOF_INT'' of
        None \<Rightarrow> Inl ConfigurationError
      | Some w \<Rightarrow> Inr (Width w))"

section \<open>Properties of preprocessing the header\<close>

lemma include_config_empty: "include_config Map.empty = Inr config_macros"
  by (simp add: include_config_def config_h_def config_macros_def active_def)

text \<open>Preprocessing never removes or changes a macro that is already defined.\<close>

lemma preprocess_keeps:
  "preprocess ds stk m = Inr m' \<Longrightarrow> m n = Some r \<Longrightarrow> m' n = Some r"
proof (induction ds stk m rule: preprocess.induct)
  case (1 stk m)
  then show ?case by (simp split: if_splits)
next
  case (2 k ds stk m)
  then show ?case by simp
next
  case (3 k r' ds stk m)
  show ?case
  proof (cases "active stk")
    case False
    with 3 show ?thesis by simp
  next
    case True
    show ?thesis
    proof (cases "m k")
      case None
      with "3.prems"(2) have "n \<noteq> k" by auto
      then have "(m(k \<mapsto> r')) n = Some r" using "3.prems"(2) by simp
      moreover have "preprocess ds stk (m(k \<mapsto> r')) = Inr m'"
        using "3.prems"(1) True None by simp
      ultimately show ?thesis using "3.IH"(1)[OF True None] by blast
    next
      case (Some r0)
      with "3.prems"(1) True have "r0 = r'" and "preprocess ds stk m = Inr m'"
        by (auto split: if_splits)
      then show ?thesis using "3.IH"(2)[OF True Some] "3.prems"(2) by blast
    qed
  qed
next
  case (4 ds stk m)
  then show ?case by (simp split: list.splits)
qed

lemma include_config_guarded_Some:
  "m guard_name = Some r \<Longrightarrow> include_config m = Inr m"
  by (simp add: include_config_def config_h_def guard_name_def active_def)

lemma include_config_guarded:
  "m guard_name \<noteq> None \<Longrightarrow> include_config m = Inr m"
  using include_config_guarded_Some[of m] by (cases "m guard_name") simp_all

lemma include_config_defines_guard:
  assumes "include_config m = Inr m'"
  shows "m' guard_name \<noteq> None"
proof (cases "m guard_name")
  case (Some r)
  then show ?thesis using assms include_config_guarded[of m] by simp
next
  case None
  then have "preprocess (tl (tl config_h)) [True] (m(guard_name \<mapsto> None)) = Inr m'"
    using assms by (simp add: include_config_def config_h_def guard_name_def active_def)
  from preprocess_keeps[OF this, of guard_name None] show ?thesis by simp
qed

lemma include_times_guarded:
  "m guard_name \<noteq> None \<Longrightarrow> include_times k m = Inr m"
  by (induction k) (simp_all add: include_config_guarded)

lemma include_times_Suc:
  "include_times (Suc k) m = include_config m"
proof (cases "include_config m")
  case (Inl e)
  then show ?thesis by simp
next
  case (Inr m')
  have "m' guard_name \<noteq> None"
    using Inr by (rule include_config_defines_guard)
  then have "include_times k m' = Inr m'"
    by (rule include_times_guarded)
  then show ?thesis
    by (simp add: Inr)
qed

lemma includes_between_guarded:
  "m guard_name \<noteq> None \<Longrightarrow>
   (\<forall>f\<in>set fs. \<forall>t. t guard_name \<noteq> None \<longrightarrow> f t guard_name \<noteq> None) \<Longrightarrow>
   includes_between fs m = Inr (fold (\<lambda>f. f) fs m)"
proof (induction fs arbitrary: m)
  case Nil
  then show ?case by (simp add: include_config_guarded)
next
  case (Cons f fs)
  have "f m guard_name \<noteq> None" using Cons.prems by simp
  then have "includes_between fs (f m) = Inr (fold (\<lambda>f. f) fs (f m))"
    using Cons.IH[of "f m"] Cons.prems(2) by simp
  then show ?case using Cons.prems(1) by (simp add: include_config_guarded)
qed

lemma includes_between_once:
  assumes "\<forall>f\<in>set fs. \<forall>t. t guard_name \<noteq> None \<longrightarrow> f t guard_name \<noteq> None"
  shows "includes_between fs m =
     (case include_config m of Inl e \<Rightarrow> Inl e | Inr m' \<Rightarrow> Inr (fold (\<lambda>f. f) fs m'))"
proof (cases "include_config m")
  case (Inl e)
  then show ?thesis by (cases fs) simp_all
next
  case (Inr m')
  then have g: "m' guard_name \<noteq> None" by (rule include_config_defines_guard)
  show ?thesis
  proof (cases fs)
    case Nil
    then show ?thesis using Inr by simp
  next
    case (Cons f fs')
    have "f m' guard_name \<noteq> None" using assms g Cons by simp
    moreover have "\<forall>f\<in>set fs'. \<forall>t. t guard_name \<noteq> None \<longrightarrow> f t guard_name \<noteq> None"
      using assms Cons by simp
    ultimately have "includes_between fs' (f m') = Inr (fold (\<lambda>f. f) fs' (f m'))"
      by (rule includes_between_guarded)
    then show ?thesis using Inr Cons by simp
  qed
qed

section \<open>Properties of the descriptor\<close>

lemma config_values:
  "map (macro_value config_macros) recognized_names =
     [Some 4, Some 1, Some 1, Some 1, Some 1, Some 1, Some 1, Some 1, Some 1, Some 1,
      Some 1, Some 1, Some 1, Some 0]"
  by (simp add: recognized_names_def flag_names_def macro_value_def config_macros_def)

lemma config_valued_names:
  "macro_value config_macros n \<noteq> None \<longleftrightarrow> n \<in> set recognized_names"
  by (simp add: recognized_names_def flag_names_def macro_value_def config_macros_def)

lemma dom_config_macros:
  "dom config_macros = insert guard_name (set recognized_names)"
  by (auto simp add: recognized_names_def flag_names_def config_macros_def guard_name_def
      split: if_splits)

lemma sizeof_int_not_flag: "''SIZEOF_INT'' \<notin> set flag_names"
  by (simp add: flag_names_def)

lemma read_flags_names: "read_flags m ns = Inr fs \<Longrightarrow> map fst fs = ns"
  by (induction ns arbitrary: fs) (auto split: option.splits sum.splits)

lemma read_flags_succeeds_iff:
  "(\<exists>fs. read_flags m ns = Inr fs) \<longleftrightarrow> (\<forall>n\<in>set ns. macro_value m n \<noteq> None)"
  by (induction ns) (auto split: option.splits sum.splits)

lemma read_flags_lookup:
  "read_flags m ns = Inr fs \<Longrightarrow>
     map_of fs n = (if n \<in> set ns then map_option (\<lambda>v. v \<noteq> 0) (macro_value m n) else None)"
  by (induction ns arbitrary: fs) (auto split: option.splits sum.splits)

lemma error_cases: "(r :: error + 'a) = Inl ConfigurationError \<longleftrightarrow> (\<forall>x. r \<noteq> Inr x)"
  by (cases r) (auto intro: error.exhaust)

lemma macro_value_upd:
  "macro_value (m(n \<mapsto> Some v)) n' = (if n' = n then Some v else macro_value m n')"
  by (simp add: macro_value_def)

lemma macro_value_undef:
  "macro_value (m(n := None)) n' = (if n' = n then None else macro_value m n')"
  by (simp add: macro_value_def)

lemma unknown_flag_iff:
  "unknown_flag m \<longleftrightarrow> \<not> (\<forall>n. macro_value m n \<noteq> None \<longrightarrow> n \<in> set recognized_names)"
  by (auto simp add: unknown_flag_def)

lemma unknown_flag_shipped: "\<not> unknown_flag config_macros"
  unfolding unknown_flag_def using config_valued_names by blast

lemma unknown_flag_upd:
  "\<not> unknown_flag m \<Longrightarrow> n \<in> set recognized_names \<Longrightarrow> \<not> unknown_flag (m(n \<mapsto> Some v))"
  unfolding unknown_flag_def by (auto simp add: macro_value_upd split: if_splits)

lemma unknown_flag_upd_unrecognized:
  "n \<notin> set recognized_names \<Longrightarrow> unknown_flag (m(n \<mapsto> Some v))"
  unfolding unknown_flag_def by (rule exI[of _ n]) (simp add: macro_value_upd)

lemma construct_with_Inr_iff:
  "(\<exists>d. construct_with ws m = Inr d) \<longleftrightarrow>
     (\<forall>n\<in>set recognized_names. macro_value m n \<noteq> None) \<and>
     \<not> unknown_flag m \<and>
     (\<exists>w\<in>set ws. macro_value m ''SIZEOF_INT'' = Some w)"
proof (cases "unknown_flag m")
  case True
  then show ?thesis by (simp add: construct_with_def)
next
  case known: False
  show ?thesis
  proof (cases "macro_value m ''SIZEOF_INT''")
    case None
    then show ?thesis by (simp add: construct_with_def)
  next
    case (Some w)
    show ?thesis
    proof (cases "w \<in> set ws")
      case False
      with Some show ?thesis by (simp add: construct_with_def)
    next
      case True
      have "(\<exists>d. construct_with ws m = Inr d) \<longleftrightarrow> (\<exists>fs. read_flags m flag_names = Inr fs)"
        using Some True known by (auto simp add: construct_with_def split: sum.splits)
      then show ?thesis
        using Some True known by (simp add: read_flags_succeeds_iff recognized_names_def)
    qed
  qed
qed

lemma construct_Inr_iff:
  "(\<exists>d. construct m = Inr d) \<longleftrightarrow>
     (\<forall>n\<in>set recognized_names. macro_value m n \<noteq> None) \<and>
     \<not> unknown_flag m \<and>
     (\<exists>w\<in>set supportedWidths. macro_value m ''SIZEOF_INT'' = Some w)"
  unfolding construct_def by (rule construct_with_Inr_iff)

lemma construct_Inr:
  "construct m = Inr d \<Longrightarrow>
     macro_value m ''SIZEOF_INT'' = Some (intWidth d) \<and> intWidth d \<in> set supportedWidths \<and>
     read_flags m flag_names = Inr (flags d)"
  by (auto simp add: construct_def construct_with_def split: option.splits if_splits sum.splits)

lemma construct_with_shipped:
  "4 \<in> set ws \<Longrightarrow> construct_with ws config_macros = Inr shipped_descriptor"
  by (simp add: construct_with_def unknown_flag_shipped)
     (simp add: flag_names_def macro_value_def config_macros_def shipped_descriptor_def)

lemma construct_shipped: "construct config_macros = Inr shipped_descriptor"
  unfolding construct_def by (rule construct_with_shipped) (simp add: supportedWidths_def)

lemma run_frame: "snd (run qs d) = d \<and> fst (run qs d) = map (\<lambda>q. fst (exec q d)) qs"
proof (induction qs)
  case Nil
  show ?case by simp
next
  case (Cons q qs)
  have "snd (exec q d) = d" by (cases q) simp_all
  then obtain a where a: "exec q d = (a, d)" by (cases "exec q d") simp
  obtain as d'' where r: "run qs d = (as, d'')" by (cases "run qs d") simp
  show ?case using Cons a r by simp
qed

lemma isAvailable_constructed:
  assumes "construct m = Inr d"
  shows "isAvailable d n =
     (if n \<in> set flag_names then
        (case macro_value m n of None \<Rightarrow> Inl ConfigurationError | Some v \<Rightarrow> Inr (v \<noteq> 0))
      else Inl ConfigurationError)"
proof -
  have "read_flags m flag_names = Inr (flags d)"
    using construct_Inr[OF assms] by simp
  from read_flags_lookup[OF this, of n] show ?thesis
    by (simp add: isAvailable_def split: option.splits)
qed

lemma exec_constructed:
  assumes "construct m = Inr d"
  shows "fst (exec q d) = configured_answer m q"
proof (cases q)
  case (IsAvailable n)
  then show ?thesis
    by (simp add: isAvailable_constructed[OF assms] split: option.splits)
next
  case IntWidth
  then show ?thesis using construct_Inr[OF assms] by simp
qed


section \<open>The claims\<close>

subsection \<open>C1: when construction succeeds\<close>

text \<open>
  Claim C1, as amended. Whatever widths \<open>ws\<close> the resolver supports, constructing the
  descriptor from a configuration succeeds exactly when every recognized name
  (\<open>SIZEOF_INT\<close> and the thirteen \<open>HAVE_\<close> flags) has an explicit value, no name outside
  the recognized set has a value, and the value of \<open>SIZEOF_INT\<close> is one of the supported
  widths. Omitting any one recognized name makes construction fail with
  \<open>ConfigurationError\<close>. The header as shipped sets all of them and no other, so
  construction from it succeeds as soon as 4 is a supported width, as it is among the
  widths the spec names.
\<close>

theorem construct_succeeds_iff:
  "((\<exists>d. construct_with ws m = Inr d) \<longleftrightarrow>
      (\<forall>n\<in>set recognized_names. macro_value m n \<noteq> None) \<and>
      (\<forall>n. macro_value m n \<noteq> None \<longrightarrow> n \<in> set recognized_names) \<and>
      (\<exists>w\<in>set ws. macro_value m ''SIZEOF_INT'' = Some w))
   \<and> (n \<in> set recognized_names \<longrightarrow> construct_with ws (m(n := None)) = Inl ConfigurationError)
   \<and> include_config Map.empty = Inr config_macros
   \<and> (4 \<in> set ws \<longrightarrow> construct_with ws config_macros = Inr shipped_descriptor)
   \<and> construct config_macros = Inr shipped_descriptor"
proof -
  have omit: "construct_with ws (m(n := None)) = Inl ConfigurationError"
    if "n \<in> set recognized_names"
  proof -
    have "macro_value (m(n := None)) n = None" by (simp add: macro_value_undef)
    with that have "\<not> (\<exists>d. construct_with ws (m(n := None)) = Inr d)"
      unfolding construct_with_Inr_iff by blast
    then show ?thesis by (simp add: error_cases)
  qed
  have "(\<exists>d. construct_with ws m = Inr d) \<longleftrightarrow>
      (\<forall>n\<in>set recognized_names. macro_value m n \<noteq> None) \<and>
      (\<forall>n. macro_value m n \<noteq> None \<longrightarrow> n \<in> set recognized_names) \<and>
      (\<exists>w\<in>set ws. macro_value m ''SIZEOF_INT'' = Some w)"
    unfolding construct_with_Inr_iff unknown_flag_iff by blast
  then show ?thesis
    using omit include_config_empty construct_with_shipped[of ws] construct_shipped by blast
qed

text \<open>
  The theorem of C1 at the shipped configuration and the widths 2, 4, 8, omitting
  \<open>HAVE_SQRT\<close>.
\<close>

theorem construct_succeeds_iff_witness:
  "''HAVE_SQRT'' \<in> set recognized_names
   \<and> construct_with supportedWidths config_macros = Inr shipped_descriptor
   \<and> map (macro_value config_macros) recognized_names =
       [Some 4, Some 1, Some 1, Some 1, Some 1, Some 1, Some 1, Some 1, Some 1, Some 1,
        Some 1, Some 1, Some 1, Some 0]
   \<and> {n. macro_value config_macros n \<noteq> None} = set recognized_names
   \<and> 4 \<in> set supportedWidths
   \<and> construct_with supportedWidths (config_macros(''HAVE_SQRT'' := None))
       = Inl ConfigurationError"
proof -
  have n: "''HAVE_SQRT'' \<in> set recognized_names"
    by (simp add: recognized_names_def flag_names_def)
  have w: "4 \<in> set supportedWidths"
    by (simp add: supportedWidths_def)
  have v: "{n. macro_value config_macros n \<noteq> None} = set recognized_names"
    using config_valued_names by blast
  from construct_succeeds_iff[of supportedWidths config_macros "''HAVE_SQRT''"] n w
  have "construct_with supportedWidths config_macros = Inr shipped_descriptor"
    and "construct_with supportedWidths (config_macros(''HAVE_SQRT'' := None))
           = Inl ConfigurationError"
    by blast+
  then show ?thesis
    using n w v config_values by simp
qed

text \<open>
  C1 as stated fails in two ways. With \<open>SIZEOF_INT\<close> set to 3 and every other setting as
  shipped, each recognized name has an explicit value and construction fails on the width.
  With the shipped settings and the unknown flag \<open>HAVE_EXP\<close> added, each recognized name
  has an explicit value and construction fails on the unknown flag.
\<close>

theorem construct_all_explicit_counterexample:
  "map (macro_value (config_macros(''SIZEOF_INT'' \<mapsto> Some 3))) recognized_names =
     [Some 3, Some 1, Some 1, Some 1, Some 1, Some 1, Some 1, Some 1, Some 1, Some 1,
      Some 1, Some 1, Some 1, Some 0]
   \<and> construct (config_macros(''SIZEOF_INT'' \<mapsto> Some 3)) = Inl ConfigurationError
   \<and> map (macro_value (config_macros(''HAVE_EXP'' \<mapsto> Some 1))) recognized_names =
     [Some 4, Some 1, Some 1, Some 1, Some 1, Some 1, Some 1, Some 1, Some 1, Some 1,
      Some 1, Some 1, Some 1, Some 0]
   \<and> construct (config_macros(''HAVE_EXP'' \<mapsto> Some 1)) = Inl ConfigurationError"
proof -
  have "\<not> (\<exists>w\<in>set supportedWidths.
           macro_value (config_macros(''SIZEOF_INT'' \<mapsto> Some 3)) ''SIZEOF_INT'' = Some w)"
    by (simp add: macro_value_upd supportedWidths_def)
  then have "\<not> (\<exists>d. construct (config_macros(''SIZEOF_INT'' \<mapsto> Some 3)) = Inr d)"
    unfolding construct_Inr_iff by blast
  then have width: "construct (config_macros(''SIZEOF_INT'' \<mapsto> Some 3)) = Inl ConfigurationError"
    by (simp add: error_cases)
  have "''HAVE_EXP'' \<notin> set recognized_names"
    by (simp add: recognized_names_def flag_names_def)
  then have "unknown_flag (config_macros(''HAVE_EXP'' \<mapsto> Some 1))"
    by (rule unknown_flag_upd_unrecognized)
  then have unknown: "construct (config_macros(''HAVE_EXP'' \<mapsto> Some 1)) = Inl ConfigurationError"
    by (simp add: construct_def construct_with_def)
  have "map (macro_value (config_macros(''SIZEOF_INT'' \<mapsto> Some 3))) recognized_names =
     [Some 3, Some 1, Some 1, Some 1, Some 1, Some 1, Some 1, Some 1, Some 1, Some 1,
      Some 1, Some 1, Some 1, Some 0]"
    by (simp add: recognized_names_def flag_names_def macro_value_def config_macros_def)
  moreover have "map (macro_value (config_macros(''HAVE_EXP'' \<mapsto> Some 1))) recognized_names =
     [Some 4, Some 1, Some 1, Some 1, Some 1, Some 1, Some 1, Some 1, Some 1, Some 1,
      Some 1, Some 1, Some 1, Some 0]"
    by (simp add: recognized_names_def flag_names_def macro_value_def config_macros_def)
  ultimately show ?thesis using width unknown by blast
qed

subsection \<open>C2: the integer width\<close>

text \<open>
  Claim C2. The header sets \<open>SIZEOF_INT\<close> to 4, so \<open>intWidth\<close> of the shipped descriptor
  is 4: a positive power of two and one of the supported widths, so construction does not
  fail on clause (b).
\<close>

theorem intWidth_shipped:
  "include_config Map.empty = Inr config_macros
   \<and> macro_value config_macros ''SIZEOF_INT'' = Some 4
   \<and> construct config_macros = Inr shipped_descriptor
   \<and> intWidth shipped_descriptor = 4
   \<and> 0 < intWidth shipped_descriptor
   \<and> (\<exists>k::nat. intWidth shipped_descriptor = 2 ^ k)
   \<and> intWidth shipped_descriptor \<in> set supportedWidths"
proof -
  have w: "intWidth shipped_descriptor = 4" by (simp add: shipped_descriptor_def)
  have "(4::int) = 2 ^ 2" by simp
  then have "\<exists>k::nat. (4::int) = 2 ^ k" by (rule exI)
  moreover have "macro_value config_macros ''SIZEOF_INT'' = Some 4"
    by (simp add: macro_value_def config_macros_def)
  ultimately show ?thesis
    by (simp add: w include_config_empty construct_shipped supportedWidths_def)
qed

subsection \<open>C3: the option parser flag\<close>

text \<open>
  Claim C3. The header sets \<open>HAVE_GETOPT\<close> to 0, so \<open>isAvailable\<close> answers false for it
  on the shipped descriptor. The value is configuration data: in any configuration from
  which construction succeeds, giving any flag another value still constructs a
  descriptor, whose answer for that flag is the new value, and whose width and answers for
  every other name are unchanged.
\<close>

theorem getopt_disabled_configurable:
  "include_config Map.empty = Inr config_macros
   \<and> macro_value config_macros ''HAVE_GETOPT'' = Some 0
   \<and> construct config_macros = Inr shipped_descriptor
   \<and> isAvailable shipped_descriptor ''HAVE_GETOPT'' = Inr False
   \<and> (construct m = Inr d \<and> n \<in> set flag_names \<longrightarrow>
        (\<exists>d'. construct (m(n \<mapsto> Some v)) = Inr d'
           \<and> isAvailable d' n = Inr (v \<noteq> 0)
           \<and> intWidth d' = intWidth d
           \<and> (\<forall>n'. n' \<noteq> n \<longrightarrow> isAvailable d' n' = isAvailable d n')))"
proof -
  have shipped: "macro_value config_macros ''HAVE_GETOPT'' = Some 0"
    "isAvailable shipped_descriptor ''HAVE_GETOPT'' = Inr False"
    by (simp_all add: macro_value_def config_macros_def isAvailable_def shipped_descriptor_def)
  have upd: "\<exists>d'. construct (m(n \<mapsto> Some v)) = Inr d'
           \<and> isAvailable d' n = Inr (v \<noteq> 0)
           \<and> intWidth d' = intWidth d
           \<and> (\<forall>n'. n' \<noteq> n \<longrightarrow> isAvailable d' n' = isAvailable d n')"
    if c: "construct m = Inr d" and n: "n \<in> set flag_names"
  proof -
    let ?m' = "m(n \<mapsto> Some v)"
    from n have ne: "n \<noteq> ''SIZEOF_INT''" using sizeof_int_not_flag by auto
    from n have rn: "n \<in> set recognized_names" by (simp add: recognized_names_def)
    have "\<exists>d. construct m = Inr d" using c by blast
    then have "\<exists>d'. construct ?m' = Inr d'"
      unfolding construct_Inr_iff using ne unknown_flag_upd[OF _ rn, of m v]
      by (auto simp add: macro_value_upd)
    then obtain d' where c': "construct ?m' = Inr d'" ..
    have "Some (intWidth d') = Some (intWidth d)"
      using construct_Inr[OF c'] construct_Inr[OF c] ne by (simp add: macro_value_upd)
    then have "intWidth d' = intWidth d" by simp
    moreover have "isAvailable d' n = Inr (v \<noteq> 0)"
      using n by (simp add: isAvailable_constructed[OF c'] macro_value_upd)
    moreover have "isAvailable d' n' = isAvailable d n'" if "n' \<noteq> n" for n'
      using that
      by (simp add: isAvailable_constructed[OF c'] isAvailable_constructed[OF c] macro_value_upd)
    ultimately show ?thesis using c' by blast
  qed
  show ?thesis
    using upd shipped by (simp add: include_config_empty construct_shipped)
qed

text \<open>The theorem of C3 at the shipped configuration, with \<open>HAVE_GETOPT\<close> set to 1.\<close>

theorem getopt_disabled_configurable_witness:
  "construct config_macros = Inr shipped_descriptor
   \<and> ''HAVE_GETOPT'' \<in> set flag_names
   \<and> (\<exists>d'. construct (config_macros(''HAVE_GETOPT'' \<mapsto> Some 1)) = Inr d'
         \<and> isAvailable d' ''HAVE_GETOPT'' = Inr True
         \<and> intWidth d' = 4
         \<and> isAvailable d' ''HAVE_SQRT'' = Inr True)"
proof -
  have n: "''HAVE_GETOPT'' \<in> set flag_names" by (simp add: flag_names_def)
  have s: "isAvailable shipped_descriptor ''HAVE_SQRT'' = Inr True"
    "intWidth shipped_descriptor = 4"
    by (simp_all add: isAvailable_def shipped_descriptor_def)
  from getopt_disabled_configurable[of config_macros shipped_descriptor "''HAVE_GETOPT''" 1]
  obtain d' where "construct (config_macros(''HAVE_GETOPT'' \<mapsto> Some 1)) = Inr d'"
    "isAvailable d' ''HAVE_GETOPT'' = Inr True" "intWidth d' = 4"
    "\<forall>n'. n' \<noteq> ''HAVE_GETOPT'' \<longrightarrow> isAvailable d' n' = isAvailable shipped_descriptor n'"
    using n construct_shipped s by auto
  moreover from this have "isAvailable d' ''HAVE_SQRT'' = Inr True" using s by simp
  ultimately show ?thesis using n construct_shipped by blast
qed

subsection \<open>C4: the closed set of names\<close>

text \<open>
  Claim C4. The names to which the header gives a value are exactly the fourteen recognized
  names (the only other macro it defines is the include guard, which has no value). A
  constructed descriptor holds exactly the thirteen flag names, and \<open>isAvailable\<close> answers
  every name outside the recognized set with \<open>ConfigurationError\<close>.
\<close>

theorem recognized_names_closed:
  "include_config Map.empty = Inr config_macros
   \<and> {n. macro_value config_macros n \<noteq> None} = set recognized_names
   \<and> dom config_macros = insert guard_name (set recognized_names)
   \<and> (construct m = Inr d \<longrightarrow>
        map fst (flags d) = flag_names
        \<and> (\<forall>n. n \<notin> set recognized_names \<longrightarrow> isAvailable d n = Inl ConfigurationError))"
proof -
  have "map fst (flags d) = flag_names" if "construct m = Inr d"
    using construct_Inr[OF that] by (blast intro: read_flags_names)
  moreover have "isAvailable d n = Inl ConfigurationError"
    if "construct m = Inr d" and "n \<notin> set recognized_names" for n
    using that by (simp add: isAvailable_constructed recognized_names_def)
  moreover have "{n. macro_value config_macros n \<noteq> None} = set recognized_names"
    using config_valued_names by blast
  ultimately show ?thesis
    by (simp add: include_config_empty dom_config_macros)
qed

text \<open>The theorem of C4 at the shipped descriptor and the unknown name \<open>HAVE_EXP\<close>.\<close>

theorem recognized_names_closed_witness:
  "construct config_macros = Inr shipped_descriptor
   \<and> map fst (flags shipped_descriptor) = flag_names
   \<and> ''HAVE_EXP'' \<notin> set recognized_names
   \<and> isAvailable shipped_descriptor ''HAVE_EXP'' = Inl ConfigurationError"
proof -
  have n: "''HAVE_EXP'' \<notin> set recognized_names"
    by (simp add: recognized_names_def flag_names_def)
  from recognized_names_closed[of config_macros shipped_descriptor] construct_shipped
  have "map fst (flags shipped_descriptor) = flag_names"
    and "\<forall>n. n \<notin> set recognized_names \<longrightarrow>
          isAvailable shipped_descriptor n = Inl ConfigurationError"
    by blast+
  then show ?thesis using n construct_shipped by blast
qed

subsection \<open>C5: immutability\<close>

text \<open>
  Claim C5. Whatever sequence of \<open>isAvailable\<close> and \<open>intWidth\<close> operations runs on a
  constructed descriptor, the descriptor afterwards is the one constructed, and every
  operation returns what it returns on the fresh descriptor, which is the answer fixed by
  the configuration at construction.
\<close>

theorem descriptor_immutable:
  "construct m = Inr d \<Longrightarrow>
     snd (run qs d) = d
     \<and> fst (run qs d) = map (\<lambda>q. fst (exec q d)) qs
     \<and> fst (run qs d) = map (configured_answer m) qs"
proof -
  assume c: "construct m = Inr d"
  have "map (\<lambda>q. fst (exec q d)) qs = map (configured_answer m) qs"
    by (simp add: exec_constructed[OF c])
  then show ?thesis using run_frame[of qs d] by simp
qed

text \<open>The theorem of C5 at the shipped descriptor and a sequence of five operations.\<close>

theorem descriptor_immutable_witness:
  "construct config_macros = Inr shipped_descriptor
   \<and> run [IsAvailable ''HAVE_SQRT'', IntWidth, IsAvailable ''HAVE_GETOPT'',
           IsAvailable ''HAVE_EXP'', IsAvailable ''HAVE_SQRT''] shipped_descriptor
       = ([Inr (Available True), Inr (Width 4), Inr (Available False),
           Inl ConfigurationError, Inr (Available True)], shipped_descriptor)"
proof -
  let ?qs = "[IsAvailable ''HAVE_SQRT'', IntWidth, IsAvailable ''HAVE_GETOPT'',
           IsAvailable ''HAVE_EXP'', IsAvailable ''HAVE_SQRT'']"
  have "configured_answer config_macros (IsAvailable ''HAVE_SQRT'') = Inr (Available True)"
    "configured_answer config_macros IntWidth = Inr (Width 4)"
    "configured_answer config_macros (IsAvailable ''HAVE_GETOPT'') = Inr (Available False)"
    "configured_answer config_macros (IsAvailable ''HAVE_EXP'') = Inl ConfigurationError"
    by (simp_all add: flag_names_def macro_value_def config_macros_def)
  then have "map (configured_answer config_macros) ?qs =
      [Inr (Available True), Inr (Width 4), Inr (Available False),
           Inl ConfigurationError, Inr (Available True)]"
    by simp
  with descriptor_immutable[OF construct_shipped, of ?qs]
  have "snd (run ?qs shipped_descriptor) = shipped_descriptor"
    and "fst (run ?qs shipped_descriptor) = [Inr (Available True), Inr (Width 4), Inr (Available False),
           Inl ConfigurationError, Inr (Available True)]"
    by simp_all
  then have "run ?qs shipped_descriptor = ([Inr (Available True), Inr (Width 4), Inr (Available False),
           Inl ConfigurationError, Inr (Available True)], shipped_descriptor)"
    by (simp add: prod_eq_iff)
  then show ?thesis using construct_shipped by blast
qed

subsection \<open>C8: every capability but the option parser is native\<close>

text \<open>
  Claim C8. In the header every flag other than \<open>HAVE_GETOPT\<close> has the value 1, so on the
  shipped descriptor \<open>isAvailable\<close> is true for each of them and the resolver picks the
  native primitive; \<open>HAVE_GETOPT\<close> is the only flag resolved to the fallback.
\<close>

theorem native_except_getopt:
  "include_config Map.empty = Inr config_macros
   \<and> construct config_macros = Inr shipped_descriptor
   \<and> (\<forall>n\<in>set flag_names.
        macro_value config_macros n = Some (if n = ''HAVE_GETOPT'' then 0 else 1)
        \<and> isAvailable shipped_descriptor n = Inr (n \<noteq> ''HAVE_GETOPT'')
        \<and> resolve shipped_descriptor n = Inr (if n = ''HAVE_GETOPT'' then Fallback else Native))"
proof -
  have "\<forall>n\<in>set flag_names.
        macro_value config_macros n = Some (if n = ''HAVE_GETOPT'' then 0 else 1)
        \<and> isAvailable shipped_descriptor n = Inr (n \<noteq> ''HAVE_GETOPT'')
        \<and> resolve shipped_descriptor n = Inr (if n = ''HAVE_GETOPT'' then Fallback else Native)"
    by (simp add: flag_names_def macro_value_def config_macros_def isAvailable_def
        resolve_def shipped_descriptor_def)
  then show ?thesis
    using include_config_empty construct_shipped by blast
qed

text \<open>The theorem of C8 at \<open>HAVE_SQRT\<close>.\<close>

theorem native_except_getopt_witness:
  "''HAVE_SQRT'' \<in> set flag_names
   \<and> macro_value config_macros ''HAVE_SQRT'' = Some 1
   \<and> isAvailable shipped_descriptor ''HAVE_SQRT'' = Inr True
   \<and> resolve shipped_descriptor ''HAVE_SQRT'' = Inr Native"
proof -
  have n: "''HAVE_SQRT'' \<in> set flag_names" by (simp add: flag_names_def)
  from native_except_getopt n
  have "macro_value config_macros ''HAVE_SQRT'' = Some (if ''HAVE_SQRT'' = ''HAVE_GETOPT'' then 0 else 1)
        \<and> isAvailable shipped_descriptor ''HAVE_SQRT'' = Inr (''HAVE_SQRT'' \<noteq> ''HAVE_GETOPT'')
        \<and> resolve shipped_descriptor ''HAVE_SQRT'' = Inr (if ''HAVE_SQRT'' = ''HAVE_GETOPT'' then Fallback else Native)"
    by blast
  then show ?thesis using n by simp
qed

subsection \<open>C9: repeated inclusion\<close>

text \<open>
  Claim C9. Including the header \<open>k \<ge> 1\<close> times gives the same macro table (or the same
  error) as including it once, from any macro table; from the empty table every such
  translation unit ends with the table of the header, without a redefinition. This is the
  work of the guard: an inclusion that finds the guard defined changes nothing, whatever
  else the table holds, and an inclusion that succeeds leaves the guard defined, so every
  later one is skipped. It also holds when the inclusions are not back to back: if the
  changes made between them keep the guard defined, the translation unit ends as if the
  header were included once, at the start, and only the changes followed.
\<close>

theorem include_idempotent:
  "1 \<le> k \<Longrightarrow>
     include_times k m = include_times 1 m
     \<and> include_times k Map.empty = Inr config_macros
     \<and> (m guard_name \<noteq> None \<longrightarrow> include_config m = Inr m)
     \<and> (\<forall>m'. include_config m = Inr m' \<longrightarrow>
           m' guard_name \<noteq> None \<and> include_times k m' = Inr m')
     \<and> ((\<forall>f\<in>set fs. \<forall>t. t guard_name \<noteq> None \<longrightarrow> f t guard_name \<noteq> None) \<longrightarrow>
           includes_between fs m =
             (case include_config m of
                Inl e \<Rightarrow> Inl e
              | Inr m' \<Rightarrow> Inr (fold (\<lambda>f. f) fs m')))"
proof -
  assume "1 \<le> k"
  then obtain j where k: "k = Suc j" by (cases k) simp_all
  have one: "include_times 1 m = include_config m" for m
    using include_times_Suc[of 0 m] by simp
  have "include_times k m = include_times 1 m"
    by (simp add: k one include_times_Suc del: include_times.simps)
  moreover have "include_times k Map.empty = Inr config_macros"
    by (simp add: k include_times_Suc include_config_empty del: include_times.simps)
  moreover have "m' guard_name \<noteq> None \<and> include_times k m' = Inr m'"
    if "include_config m = Inr m'" for m'
    using include_config_defines_guard[OF that] by (simp add: include_times_guarded)
  ultimately show ?thesis
    using include_config_guarded[of m] includes_between_once[of fs m] by blast
qed

text \<open>
  The theorem of C9 at three inclusions from the empty macro table, with
  \<open>HAVE_GETOPT\<close> changed to 1 between two inclusions, and at a table in which the guard is
  defined and \<open>HAVE_GETOPT\<close> differs from the header.
\<close>

theorem include_idempotent_witness:
  "(1::nat) \<le> 3
   \<and> include_times 3 Map.empty = include_times 1 Map.empty
   \<and> include_times 3 Map.empty = Inr config_macros
   \<and> redefine ''HAVE_GETOPT'' 1 config_macros guard_name \<noteq> None
   \<and> include_config (redefine ''HAVE_GETOPT'' 1 config_macros)
       = Inr (redefine ''HAVE_GETOPT'' 1 config_macros)
   \<and> includes_between [redefine ''HAVE_GETOPT'' 1] Map.empty
       = Inr (redefine ''HAVE_GETOPT'' 1 config_macros)"
proof -
  have h: "(1::nat) \<le> 3" by simp
  have g: "redefine ''HAVE_GETOPT'' 1 config_macros guard_name \<noteq> None"
    by (simp add: redefine_def config_macros_def guard_name_def)
  have keep: "\<forall>f\<in>set [redefine ''HAVE_GETOPT'' 1].
          \<forall>t. t guard_name \<noteq> None \<longrightarrow> f t guard_name \<noteq> None"
    by (simp add: redefine_def guard_name_def)
  from include_idempotent[OF h, of Map.empty "[redefine ''HAVE_GETOPT'' 1]"] keep
  have a: "include_times 3 Map.empty = include_times 1 Map.empty"
    and b: "include_times 3 Map.empty = Inr config_macros"
    and c: "includes_between [redefine ''HAVE_GETOPT'' 1] Map.empty =
             (case include_config Map.empty of
                Inl e \<Rightarrow> Inl e
              | Inr m' \<Rightarrow> Inr (fold (\<lambda>f. f) [redefine ''HAVE_GETOPT'' 1] m'))"
    by blast+
  from include_idempotent[OF h, of "redefine ''HAVE_GETOPT'' 1 config_macros"] g
  have d: "include_config (redefine ''HAVE_GETOPT'' 1 config_macros)
       = Inr (redefine ''HAVE_GETOPT'' 1 config_macros)"
    by blast
  from c have "includes_between [redefine ''HAVE_GETOPT'' 1] Map.empty
       = Inr (redefine ''HAVE_GETOPT'' 1 config_macros)"
    by (simp add: include_config_empty)
  then show ?thesis using h a b g d by blast
qed

subsection \<open>C10: flag values are 0 or 1\<close>

text \<open>
  Claim C10. Every \<open>HAVE_\<close> flag of the header has the value 0 or 1, so for each of them
  being equal to 1 and being non-zero coincide.
\<close>

theorem flag_values_boolean:
  "include_config Map.empty = Inr config_macros
   \<and> (\<forall>n\<in>set flag_names. \<exists>v. macro_value config_macros n = Some v
         \<and> (v = 0 \<or> v = 1) \<and> ((v = 1) = (v \<noteq> 0)))"
proof -
  have "\<forall>n\<in>set flag_names. \<exists>v. macro_value config_macros n = Some v
         \<and> (v = 0 \<or> v = 1) \<and> ((v = 1) = (v \<noteq> 0))"
    by (simp add: flag_names_def macro_value_def config_macros_def)
  then show ?thesis
    using include_config_empty by blast
qed

text \<open>The theorem of C10 at \<open>HAVE_GETOPT\<close> and \<open>HAVE_ROUND\<close>.\<close>

theorem flag_values_boolean_witness:
  "''HAVE_GETOPT'' \<in> set flag_names
   \<and> macro_value config_macros ''HAVE_GETOPT'' = Some 0
   \<and> ''HAVE_ROUND'' \<in> set flag_names
   \<and> macro_value config_macros ''HAVE_ROUND'' = Some 1"
proof -
  have n: "''HAVE_GETOPT'' \<in> set flag_names" "''HAVE_ROUND'' \<in> set flag_names"
    by (simp_all add: flag_names_def)
  from flag_values_boolean n
  have "\<exists>v. macro_value config_macros ''HAVE_GETOPT'' = Some v \<and> (v = 0 \<or> v = 1)"
    and "\<exists>v. macro_value config_macros ''HAVE_ROUND'' = Some v \<and> (v = 0 \<or> v = 1)"
    by blast+
  moreover have "macro_value config_macros ''HAVE_GETOPT'' \<noteq> Some 1"
    "macro_value config_macros ''HAVE_ROUND'' \<noteq> Some 0"
    by (simp_all add: macro_value_def config_macros_def)
  ultimately show ?thesis using n by auto
qed

end
